theory Spec2Isabelle
  imports Main "HOL-Library.AList"
begin

section \<open>utils.py: the retry decorator\<close>

subsection \<open>Exceptions and their classes\<close>

text \<open>
  A Python class is its name together with its base classes, so that a class carries its
  whole ancestry. \<open>type(e) is exc_type\<close> compares class objects; here that is equality.
  \<open>issubclass\<close> is Python's relation of the same name: the wrapper never consults it,
  and the theorems about exact matching are stated against it.
\<close>

datatype pyclass = PyClass (cls_name: string) (cls_bases: "pyclass list")

fun issubclass :: "pyclass \<Rightarrow> pyclass \<Rightarrow> bool" where
  "issubclass (PyClass n bs) k = (PyClass n bs = k \<or> (\<exists>b \<in> set bs. issubclass b k))"

text \<open>
  A raised exception: its class and its message. The values of this type are the
  exceptions that \<open>except Exception\<close> catches.
\<close>

datatype exn = Exn (exn_type: pyclass) (exn_args: string)

subsection \<open>The configuration dictionary\<close>

text \<open>
  A dict is an association list in insertion order with unique keys; storing a key keeps
  its position when it is already present and appends it otherwise.
  \<^verbatim>\<open>
  exception_config = {exc: default_attempts for exc in exceptions or {}} | (
      other_exceptions or {})
  \<close>
\<close>

definition dict_or :: "('k \<times> 'v) list \<Rightarrow> ('k \<times> 'v) list \<Rightarrow> ('k \<times> 'v) list" where
  "dict_or d1 d2 = fold (\<lambda>(k, v) d. AList.update k v d) d2 d1"

definition exception_config ::
  "pyclass list \<Rightarrow> int \<Rightarrow> (pyclass \<times> int) list \<Rightarrow> (pyclass \<times> int) list" where
  "exception_config exceptions default_attempts other_exceptions =
     dict_or (fold (\<lambda>exc d. AList.update exc default_attempts d) exceptions [])
       other_exceptions"

text \<open>
  \<^verbatim>\<open>
  num_attempts = next((attempts for exc_type, attempts in exception_config.items()
                       if type(e) is exc_type), 1)
  \<close>
\<close>

definition num_attempts :: "(pyclass \<times> int) list \<Rightarrow> exn \<Rightarrow> int" where
  "num_attempts cfg e =
     (case find (\<lambda>(exc_type, attempts). exn_type e = exc_type) cfg of
        Some (exc_type, attempts) \<Rightarrow> attempts
      | None \<Rightarrow> 1)"

subsection \<open>The wrapper loop\<close>



lemma num_attempts_map_of:
  "num_attempts cfg e = (case map_of cfg (exn_type e) of Some n \<Rightarrow> n | None \<Rightarrow> 1)"
  unfolding num_attempts_def by (induction cfg) auto






subsection \<open>The sequence of calls\<close>



section \<open>experiment/oss\_fuzz\_checkout.py: cached images and Dockerfile rewriting\<close>

subsection \<open>Strings and paths\<close>

definition startswith :: "string \<Rightarrow> string \<Rightarrow> bool" where
  "startswith s prefix = (take (length prefix) s = prefix)"

definition endswith :: "string \<Rightarrow> string \<Rightarrow> bool" where
  "endswith s suffix =
     (length suffix \<le> length s \<and> drop (length s - length suffix) s = suffix)"

text \<open>
  \<open>str.split("\n")\<close>: the pieces between line feeds; a text with \<open>n\<close> line feeds has
  \<open>n + 1\<close> pieces, the empty text has one empty piece.
\<close>

fun split_nl :: "string \<Rightarrow> string list" where
  "split_nl [] = [[]]"
| "split_nl (c # cs) =
     (if c = CHR ''\<newline>'' then [] # split_nl cs
      else (case split_nl cs of [] \<Rightarrow> [[c]] | l # ls \<Rightarrow> (c # l) # ls))"

text \<open>
  \<open>os.path.join\<close> of \<open>posixpath\<close>: a component that starts with a slash discards what
  precedes it; otherwise it is appended, after a slash unless the path so far is empty or
  ends with one.
\<close>

definition path_join2 :: "string \<Rightarrow> string \<Rightarrow> string" where
  "path_join2 path b =
     (if startswith b ''/'' then b
      else if path = [] \<or> endswith path ''/'' then path @ b
      else path @ ''/'' @ b)"

definition os_path_join :: "string \<Rightarrow> string list \<Rightarrow> string" where
  "os_path_join a p = fold (\<lambda>b path. path_join2 path b) p a"

definition get_project_cache_name :: "string \<Rightarrow> string" where
  "get_project_cache_name project = ''gcr.io.oss-fuzz.'' @ project @ ''_cache''"

definition get_project_cache_image_name :: "string \<Rightarrow> string \<Rightarrow> string" where
  "get_project_cache_image_name project sanitizer =
     ''us-central1-docker.pkg.dev/oss-fuzz/oss-fuzz-gen/'' @ project @ ''-ofg-cached-''
       @ sanitizer"

subsection \<open>The world: files, docker, and what the module did to them\<close>

text \<open>
  A subprocess call is its argument vector, its working directory and the variables it
  adds to the environment. What a call does is not this module's code: it is a parameter
  \<open>ext\<close>, which maps a call and the files and docker state it finds to what became of
  the call, and to the files and docker state it leaves. A call either exits with status
  0, or exits with another status, or cannot be run at all: then \<open>subprocess.run\<close> raises
  an exception such as \<open>FileNotFoundError\<close> (no such executable or working directory) or
  another \<open>OSError\<close>. Every call that ran and every \<open>logger.info\<close> message is recorded,
  in order.
\<close>

record sp_call =
  argv :: "string list"
  cwd :: "string option"
  env :: "(string \<times> string) list"

datatype event = SpRun sp_call bool | LogInfo string

record 'd world =
  files :: "string \<rightharpoonup> string"
  docker :: 'd
  events :: "event list"

datatype os_error = FileNotFoundError string | SameFileError string string | OSError string

datatype sp_result = ExitZero | ExitNonZero | Raised os_error

type_synonym 'd ext =
  "sp_call \<Rightarrow> (string \<rightharpoonup> string) \<times> 'd \<Rightarrow> sp_result \<times> (string \<rightharpoonup> string) \<times> 'd"

text \<open>
  Every \<open>sp.run(..., check=True)\<close> of the module stands in
  \<open>try: ... except sp.CalledProcessError: ...\<close>. With \<open>check=True\<close> a status other
  than 0 raises \<open>CalledProcessError\<close>, which the handler catches: the result is whether
  the \<open>try\<close> block went through. Any other exception is not caught and leaves the
  calling function.
\<close>

definition sp_run :: "'d ext \<Rightarrow> sp_call \<Rightarrow> 'd world \<Rightarrow> os_error + bool \<times> 'd world" where
  "sp_run ext c w =
     (case ext c (files w, docker w) of
        (ExitZero, fs, d) \<Rightarrow>
          Inr (True, \<lparr>files = fs, docker = d, events = events w @ [SpRun c True]\<rparr>)
      | (ExitNonZero, fs, d) \<Rightarrow>
          Inr (False, \<lparr>files = fs, docker = d, events = events w @ [SpRun c False]\<rparr>)
      | (Raised err, fs, d) \<Rightarrow> Inl err)"

definition logger_info :: "string \<Rightarrow> 'd world \<Rightarrow> 'd world" where
  "logger_info msg w = w\<lparr>events := events w @ [LogInfo msg]\<rparr>"

definition os_path_isfile :: "'d world \<Rightarrow> string \<Rightarrow> bool" where
  "os_path_isfile w path = (files w path \<noteq> None)"

text \<open>
  \<open>shutil.copy(src, dst)\<close> between two file paths: it raises when \<open>src\<close> is not a file
  and when both paths are the same; otherwise \<open>dst\<close> gets the content of \<open>src\<close>.
\<close>

definition shutil_copy :: "string \<Rightarrow> string \<Rightarrow> 'd world \<Rightarrow> os_error + 'd world" where
  "shutil_copy src dst w =
     (case files w src of
        None \<Rightarrow> Inl (FileNotFoundError src)
      | Some content \<Rightarrow>
          if src = dst then Inl (SameFileError src dst)
          else Inr (w\<lparr>files := (files w)(dst \<mapsto> content)\<rparr>))"

subsection \<open>Building the cached images\<close>

definition has_cache_build_script :: "'d world \<Rightarrow> string \<Rightarrow> bool" where
  "has_cache_build_script w project =
     (let cached_build_script = os_path_join ''fuzzer_build_script'' [project]
      in os_path_isfile w cached_build_script)"

definition is_image_cached ::
  "'d ext \<Rightarrow> string \<Rightarrow> string \<Rightarrow> 'd world \<Rightarrow> os_error + bool \<times> 'd world" where
  "is_image_cached ext project_name sanitizer w =
     (let cached_image_name = get_project_cache_image_name project_name sanitizer
      in sp_run ext
           \<lparr>argv = [''docker'', ''manifest'', ''inspect'', cached_image_name],
            cwd = None, env = []\<rparr> w)"

definition pull_cmd :: "string \<Rightarrow> string \<Rightarrow> sp_call" where
  "pull_cmd project sanitizer =
     \<lparr>argv = [''docker'', ''pull'', get_project_cache_image_name project sanitizer],
      cwd = None, env = []\<rparr>"

definition build_fuzzers_cmd :: "string \<Rightarrow> string \<Rightarrow> string \<Rightarrow> sp_call" where
  "build_fuzzers_cmd oss_fuzz_dir project sanitizer =
     \<lparr>argv = [''python3'', ''infra/helper.py'', ''build_fuzzers'', project, ''--sanitizer'',
              sanitizer],
      cwd = Some oss_fuzz_dir,
      env = [(''OSS_FUZZ_SAVE_CONTAINERS_NAME'', get_project_cache_name project)]\<rparr>"

definition commit_cmd :: "string \<Rightarrow> string \<Rightarrow> sp_call" where
  "commit_cmd project sanitizer =
     \<lparr>argv = [''docker'', ''commit'', get_project_cache_name project,
              get_project_cache_image_name project sanitizer],
      cwd = None, env = []\<rparr>"

definition container_rm_cmd :: "string \<Rightarrow> sp_call" where
  "container_rm_cmd project =
     \<lparr>argv = [''docker'', ''container'', ''rm'', get_project_cache_name project],
      cwd = None, env = []\<rparr>"

text \<open>
  The loop \<open>for sanitizer in ["address", "coverage"]\<close> of \<open>_prepare_image_cache\<close>, over
  the sanitizers still to do. \<open>continue\<close> is the recursive call; \<open>return False\<close> ends the
  loop and the function; an exception that no handler catches ends them too.
\<close>

fun cache_sanitizers ::
  "'d ext \<Rightarrow> string \<Rightarrow> string \<Rightarrow> string list \<Rightarrow> 'd world \<Rightarrow> os_error + bool \<times> 'd world" where
  "cache_sanitizers ext oss_fuzz_dir project [] w = Inr (True, w)"
| "cache_sanitizers ext oss_fuzz_dir project (sanitizer # rest) w =
     (case is_image_cached ext project sanitizer w of
        Inl err \<Rightarrow> Inl err
      | Inr (True, w1) \<Rightarrow>
          cache_sanitizers ext oss_fuzz_dir project rest
            (logger_info (project @ ''::'' @ sanitizer
               @ '' is already cached, reusing existing cache.'') w1)
      | Inr (False, w1) \<Rightarrow>
          (case sp_run ext (pull_cmd project sanitizer) w1 of
             Inl err \<Rightarrow> Inl err
           | Inr (pulled, w2) \<Rightarrow>
               (case is_image_cached ext project sanitizer
                       (logger_info
                          (if pulled then ''Successfully pulled cache image for '' @ project
                           else ''Failed pulling image for '' @ project) w2) of
                  Inl err \<Rightarrow> Inl err
                | Inr (True, w3) \<Rightarrow>
                    cache_sanitizers ext oss_fuzz_dir project rest
                      (logger_info (''pulled image for '' @ project @ ''::'' @ sanitizer) w3)
                | Inr (False, w3) \<Rightarrow>
                    (case sp_run ext (build_fuzzers_cmd oss_fuzz_dir project sanitizer) w3 of
                       Inl err \<Rightarrow> Inl err
                     | Inr (False, w4) \<Rightarrow>
                         Inr (False,
                              logger_info (''Failed to build fuzzer for '' @ project @ ''.'') w4)
                     | Inr (True, w4) \<Rightarrow>
                         (case sp_run ext (commit_cmd project sanitizer) w4 of
                            Inl err \<Rightarrow> Inl err
                          | Inr (False, w5) \<Rightarrow>
                              Inr (False, logger_info ''Could not rename image.'' w5)
                          | Inr (True, w5) \<Rightarrow>
                              (case sp_run ext (container_rm_cmd project)
                                      (logger_info
                                         (''Created cached image ''
                                            @ get_project_cache_image_name project sanitizer)
                                         w5) of
                                 Inl err \<Rightarrow> Inl err
                               | Inr (removed, w6) \<Rightarrow>
                                   cache_sanitizers ext oss_fuzz_dir project rest
                                     (if removed then w6
                                      else logger_info ''Could not rename image.'' w6)))))))"

definition prepare_image_cache ::
  "'d ext \<Rightarrow> string \<Rightarrow> string \<Rightarrow> 'd world \<Rightarrow> os_error + bool \<times> 'd world" where
  "prepare_image_cache ext oss_fuzz_dir project w =
     (if \<not> has_cache_build_script w project
      then Inr (False, logger_info (''No cached script for '' @ project) w)
      else cache_sanitizers ext oss_fuzz_dir project [''address'', ''coverage'']
             (logger_info ''Creating a cached images''
                (logger_info (project @ '' has a cached build script'') w)))"

text \<open>
  A failed \<open>build_fuzzers\<close> or \<open>docker commit\<close> is a call after which
  \<open>_prepare_image_cache\<close> returns \<open>False\<close>. \<open>after_abort\<close> gives the events behind
  the first such call, and \<open>run_shape\<close> relates the world before a run of the loop to
  its result and the world after it.
\<close>

definition aborting :: "sp_call \<Rightarrow> bool" where
  "aborting c =
     (take 3 (argv c) = [''python3'', ''infra/helper.py'', ''build_fuzzers''] \<or>
      take 2 (argv c) = [''docker'', ''commit''])"



record benchmark =
  benchmark_id :: string
  benchmark_project :: string

text \<open>\<open>"%d" % n\<close> for a natural number.\<close>

fun str_nat :: "nat \<Rightarrow> string" where
  "str_nat n =
     (if n < 10 then [char_of (48 + n)]
      else str_nat (n div 10) @ [char_of (48 + n mod 10)])"

declare str_nat.simps [simp del]

text \<open>
  The loop \<open>for project in all_projects: _prepare_image_cache(project)\<close>, over the
  projects still to do. The result of \<open>_prepare_image_cache\<close> is dropped; an exception
  that it does not catch ends the loop.
\<close>

fun prepare_each :: "'d ext \<Rightarrow> string \<Rightarrow> string list \<Rightarrow> 'd world \<Rightarrow> os_error + 'd world" where
  "prepare_each ext oss_fuzz_dir [] w = Inr w"
| "prepare_each ext oss_fuzz_dir (project # rest) w =
     (case prepare_image_cache ext oss_fuzz_dir project w of
        Inl err \<Rightarrow> Inl err
      | Inr (cached, w') \<Rightarrow> prepare_each ext oss_fuzz_dir rest w')"

text \<open>
  Python iterates over a set in an order of its own; \<open>iter\<close> is that order, a parameter.
\<close>

definition prepare_cached_images ::
  "'d ext \<Rightarrow> (string set \<Rightarrow> string list) \<Rightarrow> string \<Rightarrow> benchmark list \<Rightarrow> 'd world \<Rightarrow>
   os_error + 'd world" where
  "prepare_cached_images ext iter oss_fuzz_dir experiment_targets w =
     (let all_projects = set (map benchmark_project experiment_targets)
      in prepare_each ext oss_fuzz_dir (iter all_projects)
           (logger_info (''Preparing cache for '' @ str_nat (card all_projects) @ '' projects'')
              w))"

subsection \<open>Rewriting a Dockerfile\<close>

text \<open>
  \<open>re.sub(r"FROM gcr.io/oss-fuzz-base/base-builder.*", "FROM $CACHE_IMAGE", text)\<close>.
  In the pattern a dot matches any character but a line feed, every other character
  matches itself, and the final \<open>.*\<close> takes the rest of the line. \<open>re.sub\<close> replaces
  the leftmost match and goes on behind it.
\<close>

datatype re_item = Lit char | Dot

fun match_prefix :: "re_item list \<Rightarrow> string \<Rightarrow> string option" where
  "match_prefix [] s = Some s"
| "match_prefix (i # is) [] = None"
| "match_prefix (Lit c # is) (x # xs) = (if x = c then match_prefix is xs else None)"
| "match_prefix (Dot # is) (x # xs) =
     (if x \<noteq> CHR ''\<newline>'' then match_prefix is xs else None)"

definition from_pattern :: "re_item list" where
  "from_pattern = map Lit ''FROM gcr'' @ [Dot] @ map Lit ''io/oss-fuzz-base/base-builder''"

lemma match_prefix_length:
  "match_prefix p s = Some r \<Longrightarrow> length r + length p = length s"
  by (induction p s rule: match_prefix.induct) (auto split: if_splits)

function re_sub_from :: "string \<Rightarrow> string" where
  "re_sub_from [] = []"
| "re_sub_from (c # cs) =
     (case match_prefix from_pattern (c # cs) of
        Some rest \<Rightarrow>
          ''FROM $CACHE_IMAGE'' @ re_sub_from (dropWhile (\<lambda>x. x \<noteq> CHR ''\<newline>'') rest)
      | None \<Rightarrow> c # re_sub_from cs)"
  by pat_completeness auto
termination
proof (relation "measure length")
  show "wf (measure length)" by simp
next
  fix c :: char and cs rest :: string
  assume "match_prefix from_pattern (c # cs) = Some rest"
  then have "length rest < length (c # cs)"
    by (drule_tac match_prefix_length) (simp add: from_pattern_def)
  moreover have "length (dropWhile (\<lambda>x. x \<noteq> CHR ''\<newline>'') rest) \<le> length rest"
    by (rule length_dropWhile_le)
  ultimately show "(dropWhile (\<lambda>x. x \<noteq> CHR ''\<newline>'') rest, c # cs) \<in> measure length"
    by simp
next
  fix c :: char and cs :: string
  show "(cs, c # cs) \<in> measure length" by simp
qed

declare re_sub_from.simps(2) [simp del]

text \<open>The first loop over the lines: which lines to keep.\<close>

record line_marks =
  arg_line :: int
  from_line :: int
  copy_fuzzer_line :: int
  copy_build_line :: int

definition scan_step :: "nat \<times> string \<Rightarrow> line_marks \<Rightarrow> line_marks" where
  "scan_step p m =
     (case p of (line_idx, line) \<Rightarrow>
        let m1 = (if startswith line ''ARG'' \<and> arg_line m = - 1
                  then m\<lparr>arg_line := int line_idx\<rparr> else m);
            m2 = (if startswith line ''FROM'' \<and> from_line m1 = - 1
                  then m1\<lparr>from_line := int line_idx\<rparr> else m1)
        in if startswith line ''COPY''
           then m2\<lparr>copy_fuzzer_line := copy_build_line m2, copy_build_line := int line_idx\<rparr>
           else m2)"

definition scan_lines :: "string list \<Rightarrow> line_marks" where
  "scan_lines lines =
     fold scan_step (enumerate 0 lines)
       \<lparr>arg_line = - 1, from_line = - 1, copy_fuzzer_line = - 1, copy_build_line = - 1\<rparr>"

text \<open>The second loop: a line that is not kept is written behind \<open>"# "\<close>.\<close>

definition emit_lines :: "int set \<Rightarrow> string list \<Rightarrow> string" where
  "emit_lines lines_to_keep lines =
     concat (map (\<lambda>(line_idx, line).
                    if int line_idx \<notin> lines_to_keep then ''# '' @ line @ ''\<newline>''
                    else line @ ''\<newline>'')
               (enumerate 0 lines))"

text \<open>The text in which the lines are classified: the original behind the new \<open>ARG\<close>
  line, after the substitution.\<close>

definition prepared_content :: "string \<Rightarrow> string \<Rightarrow> string" where
  "prepared_content cached_image_name docker_content =
     (let arg_line = ''ARG CACHE_IMAGE='' @ cached_image_name
      in re_sub_from (arg_line @ ''\<newline>'' @ docker_content))"

definition new_content :: "string \<Rightarrow> string \<Rightarrow> string" where
  "new_content cached_image_name docker_content =
     (let lines = split_nl (prepared_content cached_image_name docker_content);
          m = scan_lines lines;
          lines_to_keep = {arg_line m, from_line m, copy_fuzzer_line m, copy_build_line m}
      in emit_lines lines_to_keep lines)"

text \<open>
  What prepending one line does to an index found by the scan: a line found moves down by
  one, \<open>-1\<close> (nothing found) stays; the new first line is the \<open>ARG\<close> line.
\<close>

definition shifted :: "int \<Rightarrow> int" where
  "shifted i = (if i < 0 then i else i + 1)"

definition shift_marks :: "line_marks \<Rightarrow> line_marks" where
  "shift_marks m =
     \<lparr>arg_line = 0, from_line = shifted (from_line m),
      copy_fuzzer_line = shifted (copy_fuzzer_line m),
      copy_build_line = shifted (copy_build_line m)\<rparr>"

definition generated_project_folder :: "string \<Rightarrow> string \<Rightarrow> string" where
  "generated_project_folder oss_fuzz_dir generated_project =
     os_path_join oss_fuzz_dir [''projects'', generated_project]"

definition cached_dockerfile :: "string \<Rightarrow> string \<Rightarrow> string \<Rightarrow> string" where
  "cached_dockerfile oss_fuzz_dir generated_project sanitizer =
     os_path_join (generated_project_folder oss_fuzz_dir generated_project)
       [''Dockerfile_'' @ sanitizer @ ''_cached'']"

definition original_dockerfile :: "string \<Rightarrow> string \<Rightarrow> string" where
  "original_dockerfile oss_fuzz_dir generated_project =
     os_path_join (generated_project_folder oss_fuzz_dir generated_project)
       [''Dockerfile_original'']"

definition dockerfile :: "string \<Rightarrow> string \<Rightarrow> string" where
  "dockerfile oss_fuzz_dir generated_project =
     os_path_join (generated_project_folder oss_fuzz_dir generated_project) [''Dockerfile'']"

definition rewrite_project_to_cached_project ::
  "string \<Rightarrow> string \<Rightarrow> string \<Rightarrow> string \<Rightarrow> 'd world \<Rightarrow> os_error + 'd world" where
  "rewrite_project_to_cached_project oss_fuzz_dir project_name generated_project sanitizer w =
     (let cached_image_name = get_project_cache_image_name project_name sanitizer
      in if os_path_isfile w (cached_dockerfile oss_fuzz_dir generated_project sanitizer)
         then Inr (logger_info ''Already converted'' w)
         else
           (case (if \<not> os_path_isfile w (original_dockerfile oss_fuzz_dir generated_project)
                  then shutil_copy (dockerfile oss_fuzz_dir generated_project)
                         (original_dockerfile oss_fuzz_dir generated_project) w
                  else Inr w) of
              Inl err \<Rightarrow> Inl err
            | Inr w1 \<Rightarrow>
                (case files w1 (original_dockerfile oss_fuzz_dir generated_project) of
                   None \<Rightarrow>
                     Inl (FileNotFoundError (original_dockerfile oss_fuzz_dir generated_project))
                 | Some docker_content \<Rightarrow>
                     Inr (w1\<lparr>files := (files w1)
                            (cached_dockerfile oss_fuzz_dir generated_project sanitizer \<mapsto>
                               new_content cached_image_name docker_content)\<rparr>))))"

subsection \<open>Choosing the Dockerfile to build from\<close>

text \<open>\<open>enable_caching\<close> is the module's \<open>ENABLE_CACHING\<close>.\<close>

definition prepare_build ::
  "'d ext \<Rightarrow> bool \<Rightarrow> string \<Rightarrow> string \<Rightarrow> string \<Rightarrow> string \<Rightarrow> 'd world \<Rightarrow> os_error + 'd world" where
  "prepare_build ext enable_caching oss_fuzz_dir project_name sanitizer generated_project w =
     (if \<not> enable_caching then Inr w
      else
        (let dockerfile_to_use = dockerfile oss_fuzz_dir generated_project
         in case is_image_cached ext project_name sanitizer w of
              Inl err \<Rightarrow> Inl err
            | Inr (True, w1) \<Rightarrow>
                shutil_copy (cached_dockerfile oss_fuzz_dir generated_project sanitizer)
                  dockerfile_to_use (logger_info ''Using cached dockerfile'' w1)
            | Inr (False, w1) \<Rightarrow>
                shutil_copy (original_dockerfile oss_fuzz_dir generated_project)
                  dockerfile_to_use (logger_info ''Using original dockerfile'' w1)))"

subsection \<open>Docker tags\<close>

text \<open>
  The class \<open>\w\<close> of \<open>re\<close> on text: on ASCII the letters, the digits and the
  underscore; beyond ASCII the alphanumeric characters of Unicode, which is the parameter
  \<open>uw\<close>.
\<close>

definition is_word :: "(char \<Rightarrow> bool) \<Rightarrow> char \<Rightarrow> bool" where
  "is_word uw c =
     (let n = (of_char c :: nat)
      in if n < 128
         then (48 \<le> n \<and> n \<le> 57) \<or> (65 \<le> n \<and> n \<le> 90) \<or> (97 \<le> n \<and> n \<le> 122) \<or> n = 95
         else uw c)"

text \<open>\<open>re.sub(r"::", "-", s)\<close>\<close>

fun sub_colons :: "string \<Rightarrow> string" where
  "sub_colons (a # b # cs) =
     (if a = CHR '':'' \<and> b = CHR '':'' then CHR ''-'' # sub_colons cs
      else a # sub_colons (b # cs))"
| "sub_colons cs = cs"

text \<open>\<open>re.sub(r"[^\w_.]", "-", s)\<close>\<close>

definition sub_illegal :: "(char \<Rightarrow> bool) \<Rightarrow> string \<Rightarrow> string" where
  "sub_illegal uw s =
     map (\<lambda>c. if is_word uw c \<or> c = CHR ''_'' \<or> c = CHR ''.'' then c else CHR ''-'') s"

text \<open>\<open>re.sub(r"[-_]{2,}", "-", s)\<close>: a run of two or more of \<open>-\<close> and \<open>_\<close> is
  matched whole.\<close>

definition is_sep :: "char \<Rightarrow> bool" where
  "is_sep c = (c = CHR ''-'' \<or> c = CHR ''_'')"

function sub_runs :: "string \<Rightarrow> string" where
  "sub_runs [] = []"
| "sub_runs (c # cs) =
     (if is_sep c \<and> cs \<noteq> [] \<and> is_sep (hd cs) then CHR ''-'' # sub_runs (dropWhile is_sep cs)
      else c # sub_runs cs)"
  by pat_completeness auto
termination
  by (relation "measure length") (auto simp: length_dropWhile_le less_Suc_eq_le)

declare sub_runs.simps(2) [simp del]

definition rectify_docker_tag :: "(char \<Rightarrow> bool) \<Rightarrow> string \<Rightarrow> string" where
  "rectify_docker_tag uw docker_tag =
     (let valid_docker_tag = sub_colons docker_tag;
          valid_docker_tag = sub_illegal uw valid_docker_tag;
          valid_docker_tag = sub_runs valid_docker_tag
      in valid_docker_tag)"

text \<open>Two adjacent characters that are both \<open>-\<close> or \<open>_\<close>, and two adjacent
  \<open>-\<close>.\<close>

definition sep_pair :: "char \<Rightarrow> char \<Rightarrow> bool" where
  "sep_pair a b = (is_sep a \<and> is_sep b)"

definition dash_pair :: "char \<Rightarrow> char \<Rightarrow> bool" where
  "dash_pair a b = (a = CHR ''-'' \<and> b = CHR ''-'')"


section \<open>Concrete inputs\<close>

subsection \<open>Exception classes and failing functions\<close>

definition Exception_cls :: pyclass where
  "Exception_cls = PyClass ''Exception'' []"

definition OSError_cls :: pyclass where
  "OSError_cls = PyClass ''OSError'' [Exception_cls]"

definition ConnectionError_cls :: pyclass where
  "ConnectionError_cls = PyClass ''ConnectionError'' [OSError_cls]"









subsection \<open>A staged project and two worlds\<close>

text \<open>
  External commands that all succeed, and that all fail, leaving files and docker as they
  are; the Dockerfile of the minimal fixture; a world with a freshly staged project, and
  the same world once the Dockerfile has been rewritten for \<open>address\<close>.
\<close>

definition ext_ok :: "unit ext" where
  "ext_ok c st = (ExitZero, st)"

definition ext_fail :: "unit ext" where
  "ext_fail c st = (ExitNonZero, st)"

definition fixture :: string where
  "fixture = ''FROM base-builder\<newline>RUN a\<newline>COPY build.sh .\<newline>COPY fuzzer.cc .''"

definition fixture_gcr :: string where
  "fixture_gcr = ''FROM gcr.io/oss-fuzz-base/base-builder\<newline>RUN a\<newline>COPY build.sh .\<newline>COPY fuzzer.cc .''"

definition expected_fixture :: string where
  "expected_fixture =
     ''ARG CACHE_IMAGE=us-central1-docker.pkg.dev/oss-fuzz/oss-fuzz-gen/libxml2-ofg-cached-address\<newline>FROM base-builder\<newline># RUN a\<newline>COPY build.sh .\<newline>COPY fuzzer.cc .\<newline>''"

definition rewritten_world :: "unit world" where
  "rewritten_world =
     \<lparr>files = [''/oss-fuzz/projects/libxml2-1f/Dockerfile'' \<mapsto> fixture,
               ''/oss-fuzz/projects/libxml2-1f/Dockerfile_original'' \<mapsto> fixture,
               ''/oss-fuzz/projects/libxml2-1f/Dockerfile_address_cached'' \<mapsto> expected_fixture],
      docker = (), events = []\<rparr>"

definition staged_world :: "string \<Rightarrow> unit world" where
  "staged_world content =
     \<lparr>files = [''/oss-fuzz/projects/libxml2-1f/Dockerfile'' \<mapsto> content],
      docker = (), events = []\<rparr>"

subsection \<open>Two projects to cache\<close>


text \<open>External commands on a machine without a \<open>docker\<close> executable.\<close>

definition ext_no_docker :: "unit ext" where
  "ext_no_docker c st =
     (if take 1 (argv c) = [''docker''] then Raised (FileNotFoundError ''docker'')
      else ExitZero, st)"

definition cache_world :: "unit world" where
  "cache_world =
     \<lparr>files = [''fuzzer_build_script/libxml2'' \<mapsto> ''make'',
               ''fuzzer_build_script/zlib'' \<mapsto> ''make''],
      docker = (), events = []\<rparr>"



definition two_targets :: "benchmark list" where
  "two_targets =
     [\<lparr>benchmark_id = ''libxml2-xmlparse'', benchmark_project = ''libxml2''\<rparr>,
      \<lparr>benchmark_id = ''zlib-inflate'', benchmark_project = ''zlib''\<rparr>,
      \<lparr>benchmark_id = ''libxml2-xmlread'', benchmark_project = ''libxml2''\<rparr>]"

definition this_order :: "string set \<Rightarrow> string list" where
  "this_order S = [''libxml2'', ''zlib'']"

section \<open>Properties of the retry decorator\<close>




lemma keys_fold_update:
  "fst ` set (fold (\<lambda>exc d. AList.update exc v d) ks al) = set ks \<union> fst ` set al"
  by (induction ks arbitrary: al) (auto simp: dom_update)

lemma keys_dict_or: "fst ` set (dict_or d1 d2) = fst ` set d1 \<union> fst ` set d2"
proof (induction d2 arbitrary: d1)
  case Nil
  then show ?case by (simp add: dict_or_def)
next
  case (Cons p d2)
  have "dict_or d1 (p # d2) = dict_or (AList.update (fst p) (snd p) d1) d2"
    by (simp add: dict_or_def split_beta)
  then have "fst ` set (dict_or d1 (p # d2)) =
      fst ` set (AList.update (fst p) (snd p) d1) \<union> fst ` set d2"
    by (simp only: Cons.IH)
  also have "\<dots> = fst ` set d1 \<union> fst ` set (p # d2)"
    by (simp add: dom_update)
  finally show ?case .
qed

lemma keys_exception_config:
  "fst ` set (exception_config exceptions default_attempts other_exceptions) =
     set exceptions \<union> fst ` set other_exceptions"
  by (simp add: exception_config_def keys_dict_or keys_fold_update)

lemma num_attempts_unlisted:
  "exn_type e \<notin> fst ` set cfg \<Longrightarrow> num_attempts cfg e = 1"
  by (simp add: num_attempts_map_of map_of_eq_None_iff [THEN iffD2])




text \<open>
  C6. The budget is looked up by the exact class of the exception: an exception whose class
  is neither in \<open>exceptions\<close> nor a key of \<open>other_exceptions\<close> gets the budget 1,
  whatever its base classes are. The witness lists \<open>OSError\<close> with budget 5 and raises its
  subclass \<open>ConnectionError\<close>.
\<close>

theorem retry_exact_kind_only:
  "exn_type e \<notin> set exceptions \<union> fst ` set other_exceptions \<Longrightarrow>
     num_attempts (exception_config exceptions default_attempts other_exceptions) e = 1"
  by (simp add: num_attempts_unlisted keys_exception_config)

theorem retry_exact_kind_only_witness:
  "issubclass ConnectionError_cls OSError_cls \<and>
   exn_type (Exn ConnectionError_cls ''reset'') \<notin> set [OSError_cls] \<union> fst ` set [] \<and>
   num_attempts (exception_config [OSError_cls] 5 []) (Exn OSError_cls ''io'') = 5 \<and>
   num_attempts (exception_config [OSError_cls] 5 []) (Exn ConnectionError_cls ''reset'') = 1"
  using retry_exact_kind_only [where e = "Exn ConnectionError_cls ''reset''"
      and exceptions = "[OSError_cls]" and other_exceptions = "[]" and default_attempts = 5]
  by (simp add: exception_config_def dict_or_def num_attempts_def ConnectionError_cls_def
      OSError_cls_def Exception_cls_def)




section \<open>Properties of the image names and docker tags\<close>

subsection \<open>Image names\<close>






subsection \<open>Docker tags\<close>

lemma not_word_colon [simp]: "\<not> is_word uw CHR '':''"
  by (simp add: is_word_def)

lemma not_word_dash [simp]: "\<not> is_word uw CHR ''-''"
  by (simp add: is_word_def)

lemma sub_illegal_legal:
  "c \<in> set (sub_illegal uw s) \<Longrightarrow> is_word uw c \<or> c = CHR ''.'' \<or> c = CHR ''-'' \<or> c = CHR ''_''"
  by (auto simp: sub_illegal_def split: if_splits)

lemma set_sub_runs: "set (sub_runs s) \<subseteq> insert CHR ''-'' (set s)"
proof (induction s rule: sub_runs.induct)
  case 1
  then show ?case by simp
next
  case (2 c cs)
  show ?case
  proof (cases "is_sep c \<and> cs \<noteq> [] \<and> is_sep (hd cs)")
    case True
    with 2 have "set (sub_runs (dropWhile is_sep cs)) \<subseteq> insert CHR ''-'' (set (dropWhile is_sep cs))"
      by simp
    moreover have "set (dropWhile is_sep cs) \<subseteq> set cs"
      by (auto dest: set_dropWhileD)
    ultimately show ?thesis
      using True by (subst sub_runs.simps) auto
  next
    case False
    with 2 have "set (sub_runs cs) \<subseteq> insert CHR ''-'' (set cs)" by simp
    then show ?thesis
      using False by (subst sub_runs.simps) auto
  qed
qed

lemma sub_runs_hd:
  "s = [] \<or> \<not> is_sep (hd s) \<Longrightarrow> sub_runs s = [] \<or> \<not> is_sep (hd (sub_runs s))"
  by (cases s) (auto simp: sub_runs.simps)

lemma dropWhile_hd: "dropWhile P xs = [] \<or> \<not> P (hd (dropWhile P xs))"
  by (metis hd_dropWhile)

lemma sub_runs_no_adjacent:
  "successively (\<lambda>a b. \<not> sep_pair a b) (sub_runs s)"
proof (induction s rule: sub_runs.induct)
  case 1
  then show ?case by simp
next
  case (2 c cs)
  show ?case
  proof (cases "is_sep c \<and> cs \<noteq> [] \<and> is_sep (hd cs)")
    case True
    let ?r = "dropWhile is_sep cs"
    from True 2 have ih: "successively (\<lambda>a b. \<not> sep_pair a b) (sub_runs ?r)"
      by simp
    have "sub_runs ?r = [] \<or> \<not> is_sep (hd (sub_runs ?r))"
      by (rule sub_runs_hd) (rule dropWhile_hd)
    with ih have "successively (\<lambda>a b. \<not> sep_pair a b) (CHR ''-'' # sub_runs ?r)"
      by (auto simp: successively_Cons sep_pair_def)
    with True show ?thesis by (subst sub_runs.simps) simp
  next
    case False
    with 2 have ih: "successively (\<lambda>a b. \<not> sep_pair a b) (sub_runs cs)"
      by simp
    have "is_sep c \<Longrightarrow> sub_runs cs = [] \<or> \<not> is_sep (hd (sub_runs cs))"
      using False by (intro sub_runs_hd) auto
    with ih have "successively (\<lambda>a b. \<not> sep_pair a b) (c # sub_runs cs)"
      by (auto simp: successively_Cons sep_pair_def)
    with False show ?thesis by (subst sub_runs.simps) auto
  qed
qed

lemma sub_colons_id: "CHR '':'' \<notin> set s \<Longrightarrow> sub_colons s = s"
  by (induction s rule: sub_colons.induct) auto

lemma sub_illegal_id:
  "\<forall>c \<in> set s. is_word uw c \<or> c = CHR ''.'' \<or> c = CHR ''-'' \<Longrightarrow> sub_illegal uw s = s"
  unfolding sub_illegal_def by (induction s) auto

lemma sub_runs_id:
  "successively (\<lambda>a b. \<not> sep_pair a b) s \<Longrightarrow> sub_runs s = s"
proof (induction s)
  case Nil
  then show ?case by simp
next
  case (Cons c cs)
  then have "\<not> (is_sep c \<and> cs \<noteq> [] \<and> is_sep (hd cs))" "sub_runs cs = cs"
    by (auto simp: successively_Cons sep_pair_def)
  then show ?case by (subst sub_runs.simps) auto
qed

lemma rectify_legal:
  assumes "c \<in> set (rectify_docker_tag uw s)"
  shows "is_word uw c \<or> c = CHR ''.'' \<or> c = CHR ''-''"
proof -
  from assms have "c \<in> insert CHR ''-'' (set (sub_illegal uw (sub_colons s)))"
    using set_sub_runs by (auto simp: rectify_docker_tag_def)
  then have "is_word uw c \<or> c = CHR ''.'' \<or> c = CHR ''-'' \<or> c = CHR ''_''"
    by (auto dest: sub_illegal_legal)
  moreover have "is_word uw CHR ''_''" by (simp add: is_word_def)
  ultimately show ?thesis by auto
qed

text \<open>
  C8. \<open>rectify_docker_tag\<close> is idempotent; in its result no two adjacent characters are
  both \<open>-\<close> (nor both among \<open>-\<close> and \<open>_\<close>), and every character is a word
  character, a dot or \<open>-\<close>. This holds whatever \<open>\w\<close> contains beyond ASCII.
\<close>

theorem rectify_docker_tag_idempotent:
  "rectify_docker_tag uw (rectify_docker_tag uw s) = rectify_docker_tag uw s \<and>
   successively (\<lambda>a b. \<not> dash_pair a b) (rectify_docker_tag uw s) \<and>
   successively (\<lambda>a b. \<not> sep_pair a b) (rectify_docker_tag uw s) \<and>
   (\<forall>c \<in> set (rectify_docker_tag uw s). is_word uw c \<or> c = CHR ''.'' \<or> c = CHR ''-'')"
proof (intro conjI ballI)
  let ?t = "rectify_docker_tag uw s"
  show legal: "is_word uw c \<or> c = CHR ''.'' \<or> c = CHR ''-''" if "c \<in> set ?t" for c
    using that by (rule rectify_legal)
  show adj: "successively (\<lambda>a b. \<not> sep_pair a b) ?t"
    by (simp add: rectify_docker_tag_def sub_runs_no_adjacent)
  then show "successively (\<lambda>a b. \<not> dash_pair a b) ?t"
    by (rule successively_mono) (auto simp: is_sep_def sep_pair_def dash_pair_def)
  have "CHR '':'' \<notin> set ?t"
    using legal [of "CHR '':''"] by auto
  then have "sub_colons ?t = ?t" by (rule sub_colons_id)
  moreover have "sub_illegal uw ?t = ?t"
    using legal by (intro sub_illegal_id) blast
  moreover have "sub_runs ?t = ?t"
    using adj by (rule sub_runs_id)
  ultimately show "rectify_docker_tag uw ?t = ?t"
    by (simp add: rectify_docker_tag_def Let_def)
qed


theorem rectify_docker_tag_idempotent_witness:
  "rectify_docker_tag (\<lambda>c. False) ''libxml2::xml Parse__x-_-y.z'' = ''libxml2-xml-Parse-x-y.z'' \<and>
   rectify_docker_tag (\<lambda>c. False) (rectify_docker_tag (\<lambda>c. False) ''libxml2::xml Parse__x-_-y.z'')
     = ''libxml2-xml-Parse-x-y.z'' \<and>
   successively (\<lambda>a b. \<not> dash_pair a b) ''libxml2-xml-Parse-x-y.z''"
  using rectify_docker_tag_idempotent [of "\<lambda>c. False" "''libxml2::xml Parse__x-_-y.z''"]
  by (simp add: rectify_docker_tag_def sub_illegal_def is_word_def is_sep_def sub_runs.simps
      dash_pair_def)


section \<open>Properties of the substitution and of the line classification\<close>

subsection \<open>The substitution, line by line\<close>

lemma match_prefix_Lits:
  "match_prefix (map Lit lit @ p) s = Some r \<longleftrightarrow>
     (\<exists>s'. s = lit @ s' \<and> match_prefix p s' = Some r)"
proof (induction lit arbitrary: s)
  case Nil
  then show ?case by simp
next
  case (Cons a lit)
  then show ?case by (cases s) auto
qed

lemma match_prefix_Dot:
  "match_prefix (Dot # p) s = Some r \<longleftrightarrow>
     (\<exists>x s'. s = x # s' \<and> x \<noteq> CHR ''\<newline>'' \<and> match_prefix p s' = Some r)"
  by (cases s) auto

lemma match_from_pattern:
  "match_prefix from_pattern s = Some r \<longleftrightarrow>
     (\<exists>x. x \<noteq> CHR ''\<newline>'' \<and> s = ''FROM gcr'' @ x # ''io/oss-fuzz-base/base-builder'' @ r)"
proof -
  have shape: "from_pattern =
      map Lit ''FROM gcr'' @ (Dot # (map Lit ''io/oss-fuzz-base/base-builder'' @ []))"
    by (simp add: from_pattern_def)
  show ?thesis
    unfolding shape match_prefix_Lits match_prefix_Dot by auto
qed

lemma from_pattern_no_newline: "\<forall>i \<in> set from_pattern. i \<noteq> Lit CHR ''\<newline>''"
  by (simp add: from_pattern_def)

lemma match_prefix_line:
  "\<forall>i \<in> set p. i \<noteq> Lit CHR ''\<newline>'' \<Longrightarrow> CHR ''\<newline>'' \<notin> set l \<Longrightarrow>
   match_prefix p (l @ CHR ''\<newline>'' # rest)
     = map_option (\<lambda>r. r @ CHR ''\<newline>'' # rest) (match_prefix p l)"
proof (induction p l rule: match_prefix.induct)
  case (1 s)
  then show ?case by simp
next
  case (2 i "is")
  then show ?case by (cases i) auto
next
  case (3 c "is" x xs)
  then show ?case by simp
next
  case (4 "is" x xs)
  then show ?case by simp
qed

lemma match_prefix_suffix: "match_prefix p s = Some r \<Longrightarrow> set r \<subseteq> set s"
  by (induction p s rule: match_prefix.induct) (auto split: if_splits)

lemma dropWhile_no_newline:
  "CHR ''\<newline>'' \<notin> set r \<Longrightarrow> dropWhile (\<lambda>x. x \<noteq> CHR ''\<newline>'') r = []"
  by (induction r) auto

lemma dropWhile_to_newline:
  "CHR ''\<newline>'' \<notin> set r \<Longrightarrow>
   dropWhile (\<lambda>x. x \<noteq> CHR ''\<newline>'') (r @ CHR ''\<newline>'' # rest) = CHR ''\<newline>'' # rest"
  by (induction r) auto

lemma re_sub_from_keeps_start: "n \<le> 5 \<Longrightarrow> take n (re_sub_from s) = take n s"
proof (induction s arbitrary: n)
  case Nil
  then show ?case by simp
next
  case (Cons c cs)
  show ?case
  proof (cases "match_prefix from_pattern (c # cs)")
    case None
    then have eq: "re_sub_from (c # cs) = c # re_sub_from cs"
      by (simp add: re_sub_from.simps(2))
    show ?thesis
    proof (cases n)
      case 0
      then show ?thesis by simp
    next
      case (Suc k)
      with Cons.prems have "k \<le> 5" by simp
      then have "take k (re_sub_from cs) = take k cs" by (rule Cons.IH)
      with Suc eq show ?thesis by simp
    qed
  next
    case (Some rest)
    then obtain x where s: "c # cs = ''FROM gcr'' @ x # ''io/oss-fuzz-base/base-builder'' @ rest"
      using match_from_pattern by blast
    from Some have eq: "re_sub_from (c # cs) =
        ''FROM $CACHE_IMAGE'' @ re_sub_from (dropWhile (\<lambda>x. x \<noteq> CHR ''\<newline>'') rest)"
      by (simp add: re_sub_from.simps(2))
    have "take n (re_sub_from (c # cs)) = take n ''FROM ''"
      unfolding eq using Cons.prems by (simp add: take_Cons')
    moreover have "take n (c # cs) = take n ''FROM ''"
      unfolding s using Cons.prems by (simp add: take_Cons')
    ultimately show ?thesis by simp
  qed
qed

lemma startswith_re_sub_from:
  "length k \<le> 5 \<Longrightarrow> startswith (re_sub_from l) k = startswith l k"
  by (simp add: startswith_def re_sub_from_keeps_start)

lemma re_sub_from_line_end:
  "re_sub_from (CHR ''\<newline>'' # rest) = CHR ''\<newline>'' # re_sub_from rest"
  by (simp add: re_sub_from.simps from_pattern_def)

lemma re_sub_from_line:
  "CHR ''\<newline>'' \<notin> set l \<Longrightarrow>
   re_sub_from (l @ CHR ''\<newline>'' # rest) = re_sub_from l @ CHR ''\<newline>'' # re_sub_from rest"
proof (induction l)
  case Nil
  then show ?case by (simp add: re_sub_from_line_end)
next
  case (Cons c cs)
  have m: "match_prefix from_pattern ((c # cs) @ CHR ''\<newline>'' # rest)
      = map_option (\<lambda>r. r @ CHR ''\<newline>'' # rest) (match_prefix from_pattern (c # cs))"
    using from_pattern_no_newline Cons.prems by (rule match_prefix_line)
  show ?case
  proof (cases "match_prefix from_pattern (c # cs)")
    case None
    with m have "re_sub_from ((c # cs) @ CHR ''\<newline>'' # rest)
        = c # re_sub_from (cs @ CHR ''\<newline>'' # rest)"
      by (simp add: re_sub_from.simps(2))
    moreover from None have "re_sub_from (c # cs) = c # re_sub_from cs"
      by (simp add: re_sub_from.simps(2))
    ultimately show ?thesis using Cons by simp
  next
    case (Some r)
    then have "set r \<subseteq> set (c # cs)" by (rule match_prefix_suffix)
    with Cons.prems have nl: "CHR ''\<newline>'' \<notin> set r" by auto
    have "re_sub_from ((c # cs) @ CHR ''\<newline>'' # rest)
        = ''FROM $CACHE_IMAGE'' @ re_sub_from (CHR ''\<newline>'' # rest)"
      using m by (simp add: re_sub_from.simps(2) Some dropWhile_to_newline [OF nl])
    moreover have "re_sub_from (c # cs) = ''FROM $CACHE_IMAGE''"
      by (simp add: re_sub_from.simps(2) Some dropWhile_no_newline [OF nl])
    ultimately show ?thesis by (simp add: re_sub_from_line_end)
  qed
qed

lemma re_sub_from_no_newline:
  "CHR ''\<newline>'' \<notin> set l \<Longrightarrow> CHR ''\<newline>'' \<notin> set (re_sub_from l)"
proof (induction l)
  case Nil
  then show ?case by simp
next
  case (Cons c cs)
  show ?case
  proof (cases "match_prefix from_pattern (c # cs)")
    case None
    then have "re_sub_from (c # cs) = c # re_sub_from cs"
      by (simp add: re_sub_from.simps(2))
    with Cons show ?thesis by simp
  next
    case (Some r)
    then have "set r \<subseteq> set (c # cs)" by (rule match_prefix_suffix)
    with Cons.prems have nl: "CHR ''\<newline>'' \<notin> set r" by auto
    have "re_sub_from (c # cs) = ''FROM $CACHE_IMAGE''"
      by (simp add: re_sub_from.simps(2) Some dropWhile_no_newline [OF nl])
    then show ?thesis by simp
  qed
qed

lemma re_sub_from_no_F:
  "CHR ''F'' \<notin> set l \<Longrightarrow> re_sub_from l = l"
proof (induction l)
  case Nil
  then show ?case by simp
next
  case (Cons c cs)
  then have "match_prefix from_pattern (c # cs) = None"
    by (auto simp: from_pattern_def)
  with Cons show ?case by (simp add: re_sub_from.simps(2))
qed

subsection \<open>Lines\<close>

lemma split_nl_not_Nil [simp]: "split_nl s \<noteq> []"
  by (induction s) (auto split: list.splits)

lemma split_nl_line:
  "CHR ''\<newline>'' \<notin> set l \<Longrightarrow> split_nl (l @ CHR ''\<newline>'' # rest) = l # split_nl rest"
  by (induction l) auto

lemma split_nl_single: "CHR ''\<newline>'' \<notin> set l \<Longrightarrow> split_nl l = [l]"
  by (induction l) auto

lemma split_nl_re_sub_from: "split_nl (re_sub_from t) = map re_sub_from (split_nl t)"
proof (induction "length t" arbitrary: t rule: less_induct)
  case less
  show ?case
  proof (cases "CHR ''\<newline>'' \<in> set t")
    case False
    then show ?thesis
      by (simp add: split_nl_single re_sub_from_no_newline)
  next
    case True
    then obtain l rest where t: "t = l @ CHR ''\<newline>'' # rest" "CHR ''\<newline>'' \<notin> set l"
      by (meson split_list_first)
    then have "length rest < length t" by simp
    then have "split_nl (re_sub_from rest) = map re_sub_from (split_nl rest)"
      by (rule less)
    with t show ?thesis
      by (simp add: re_sub_from_line split_nl_line re_sub_from_no_newline)
  qed
qed


subsection \<open>The scan\<close>

lemma scan_step_re_sub_from: "scan_step (i, re_sub_from l) m = scan_step (i, l) m"
  by (simp add: scan_step_def startswith_re_sub_from)

lemma fold_scan_re_sub_from:
  "fold scan_step (enumerate n (map re_sub_from ls)) m = fold scan_step (enumerate n ls) m"
  by (induction ls arbitrary: n m) (simp_all add: scan_step_re_sub_from)

lemma scan_step_shift:
  "scan_step (Suc i, l) (shift_marks m) = shift_marks (scan_step (i, l) m)"
  by (simp add: scan_step_def shift_marks_def shifted_def Let_def)

lemma fold_scan_shift:
  "fold scan_step (enumerate (Suc n) ls) (shift_marks m)
     = shift_marks (fold scan_step (enumerate n ls) m)"
  by (induction ls arbitrary: n m) (simp_all add: scan_step_shift)

lemma scan_lines_behind_arg:
  "scan_lines ((''ARG CACHE_IMAGE='' @ n) # ls) = shift_marks (scan_lines ls)"
proof -
  let ?init = "\<lparr>arg_line = - 1, from_line = - 1, copy_fuzzer_line = - 1, copy_build_line = - 1\<rparr>"
  have "scan_step (0, ''ARG CACHE_IMAGE='' @ n) ?init = shift_marks ?init"
    by (simp add: scan_step_def startswith_def shift_marks_def shifted_def)
  then have "scan_lines ((''ARG CACHE_IMAGE='' @ n) # ls)
      = fold scan_step (enumerate (Suc 0) ls) (shift_marks ?init)"
    by (simp add: scan_lines_def)
  also have "\<dots> = shift_marks (fold scan_step (enumerate 0 ls) ?init)"
    by (rule fold_scan_shift)
  finally show ?thesis by (simp add: scan_lines_def)
qed

lemma prepared_lines:
  assumes "CHR ''\<newline>'' \<notin> set n"
  shows "split_nl (prepared_content n c)
           = map re_sub_from ((''ARG CACHE_IMAGE='' @ n) # split_nl c)"
proof -
  have "CHR ''\<newline>'' \<notin> set (''ARG CACHE_IMAGE='' @ n)"
    using assms by simp
  then have "split_nl ((''ARG CACHE_IMAGE='' @ n) @ CHR ''\<newline>'' # c)
      = (''ARG CACHE_IMAGE='' @ n) # split_nl c"
    by (rule split_nl_line)
  then show ?thesis
    by (simp add: prepared_content_def split_nl_re_sub_from)
qed

lemma scan_lines_prepared:
  assumes "CHR ''\<newline>'' \<notin> set n"
  shows "scan_lines (split_nl (prepared_content n c)) = shift_marks (scan_lines (split_nl c))"
proof -
  have "scan_lines (split_nl (prepared_content n c))
      = scan_lines ((''ARG CACHE_IMAGE='' @ n) # split_nl c)"
    unfolding prepared_lines [OF assms] scan_lines_def by (rule fold_scan_re_sub_from)
  then show ?thesis by (simp only: scan_lines_behind_arg)
qed

lemma scan_lines_fixture:
  "scan_lines (split_nl fixture)
     = \<lparr>arg_line = - 1, from_line = 0, copy_fuzzer_line = 2, copy_build_line = 3\<rparr>"
  by (simp add: fixture_def scan_lines_def scan_step_def startswith_def enumerate_eq_zip)

lemma scan_lines_fixture_gcr:
  "scan_lines (split_nl fixture_gcr)
     = \<lparr>arg_line = - 1, from_line = 0, copy_fuzzer_line = 2, copy_build_line = 3\<rparr>"
  by (simp add: fixture_gcr_def scan_lines_def scan_step_def startswith_def enumerate_eq_zip)

lemma image_name_no_newline:
  "CHR ''\<newline>'' \<notin> set project \<Longrightarrow> CHR ''\<newline>'' \<notin> set sanitizer \<Longrightarrow>
   CHR ''\<newline>'' \<notin> set (get_project_cache_image_name project sanitizer)"
  by (simp add: get_project_cache_image_name_def)

lemma arg_line_unchanged:
  "CHR ''F'' \<notin> set project \<Longrightarrow>
   re_sub_from (''ARG CACHE_IMAGE='' @ get_project_cache_image_name project ''address'')
     = ''ARG CACHE_IMAGE='' @ get_project_cache_image_name project ''address''"
  by (rule re_sub_from_no_F) (simp add: get_project_cache_image_name_def)

lemma new_content_lines:
  assumes "CHR ''\<newline>'' \<notin> set n"
  shows "new_content n c =
     (let m = shift_marks (scan_lines (split_nl c))
      in emit_lines {arg_line m, from_line m, copy_fuzzer_line m, copy_build_line m}
           (map re_sub_from ((''ARG CACHE_IMAGE='' @ n) # split_nl c)))"
  unfolding new_content_def Let_def scan_lines_prepared [OF assms]
  by (simp only: prepared_lines [OF assms])

lemma re_sub_from_fixture_lines:
  "map re_sub_from (split_nl fixture)
     = [''FROM base-builder'', ''RUN a'', ''COPY build.sh .'', ''COPY fuzzer.cc .'']"
  by (simp add: fixture_def re_sub_from.simps(2) from_pattern_def)

lemma re_sub_from_fixture_gcr_lines:
  "map re_sub_from (split_nl fixture_gcr)
     = [''FROM $CACHE_IMAGE'', ''RUN a'', ''COPY build.sh .'', ''COPY fuzzer.cc .'']"
  by (simp add: fixture_gcr_def re_sub_from.simps(2) from_pattern_def)

lemma new_content_fixture_any_project:
  assumes "CHR ''\<newline>'' \<notin> set project" "CHR ''F'' \<notin> set project"
  shows "new_content (get_project_cache_image_name project ''address'') fixture =
     ''ARG CACHE_IMAGE=us-central1-docker.pkg.dev/oss-fuzz/oss-fuzz-gen/'' @ project
       @ ''-ofg-cached-address\<newline>FROM base-builder\<newline># RUN a\<newline>COPY build.sh .\<newline>COPY fuzzer.cc .\<newline>''"
proof -
  have nl: "CHR ''\<newline>'' \<notin> set (get_project_cache_image_name project ''address'')"
    using assms(1) by (simp add: image_name_no_newline)
  show ?thesis
    unfolding new_content_lines [OF nl] list.map re_sub_from_fixture_lines
      arg_line_unchanged [OF assms(2)] scan_lines_fixture
    by (simp add: shift_marks_def shifted_def emit_lines_def enumerate_eq_zip
        get_project_cache_image_name_def)
qed

lemma new_content_fixture_gcr_any_project:
  assumes "CHR ''\<newline>'' \<notin> set project" "CHR ''F'' \<notin> set project"
  shows "new_content (get_project_cache_image_name project ''address'') fixture_gcr =
     ''ARG CACHE_IMAGE=us-central1-docker.pkg.dev/oss-fuzz/oss-fuzz-gen/'' @ project
       @ ''-ofg-cached-address\<newline>FROM $CACHE_IMAGE\<newline># RUN a\<newline>COPY build.sh .\<newline>COPY fuzzer.cc .\<newline>''"
proof -
  have nl: "CHR ''\<newline>'' \<notin> set (get_project_cache_image_name project ''address'')"
    using assms(1) by (simp add: image_name_no_newline)
  show ?thesis
    unfolding new_content_lines [OF nl] list.map re_sub_from_fixture_gcr_lines
      arg_line_unchanged [OF assms(2)] scan_lines_fixture_gcr
    by (simp add: shift_marks_def shifted_def emit_lines_def enumerate_eq_zip
        get_project_cache_image_name_def)
qed


text \<open>
  C3, as stated, fails: the lines are classified after the \<open>ARG\<close> line has been put in
  front. For the minimal fixture the recorded indices are 0, 1, 3 and 4; in the original
  text the \<open>FROM\<close> line is line 0, the \<open>COPY\<close> lines are lines 2 and 3, and there is no
  \<open>ARG\<close> line.
\<close>

theorem scan_not_on_original_text:
  "scan_lines (split_nl (prepared_content (get_project_cache_image_name ''libxml2'' ''address'')
       fixture))
     = \<lparr>arg_line = 0, from_line = 1, copy_fuzzer_line = 3, copy_build_line = 4\<rparr> \<and>
   scan_lines (split_nl fixture)
     = \<lparr>arg_line = - 1, from_line = 0, copy_fuzzer_line = 2, copy_build_line = 3\<rparr> \<and>
   scan_lines (split_nl (prepared_content (get_project_cache_image_name ''libxml2'' ''address'')
       fixture))
     \<noteq> scan_lines (split_nl fixture)"
  using scan_lines_prepared [of "get_project_cache_image_name ''libxml2'' ''address''" fixture]
    scan_lines_fixture
  by (simp add: shift_marks_def shifted_def get_project_cache_image_name_def)

text \<open>
  C3, amended. The scan runs over the text that already starts with the new \<open>ARG\<close> line
  (and in which the \<open>FROM\<close> substitution has been made): the recorded \<open>ARG\<close> index is 0,
  the index of the inserted line, and each other recorded index is one more than the index
  the same scan finds in the original text, \<open>-1\<close> staying \<open>-1\<close>. The image name is
  assumed to contain no line feed.
\<close>

theorem scan_after_prepending:
  "CHR ''\<newline>'' \<notin> set cached_image_name \<Longrightarrow>
   scan_lines (split_nl (prepared_content cached_image_name docker_content))
     = shift_marks (scan_lines (split_nl docker_content))"
  by (rule scan_lines_prepared)

theorem scan_after_prepending_witness:
  "CHR ''\<newline>'' \<notin> set (get_project_cache_image_name ''libxml2'' ''address'') \<and>
   scan_lines (split_nl fixture_gcr)
     = \<lparr>arg_line = - 1, from_line = 0, copy_fuzzer_line = 2, copy_build_line = 3\<rparr> \<and>
   scan_lines (split_nl (prepared_content (get_project_cache_image_name ''libxml2'' ''address'')
       fixture_gcr))
     = \<lparr>arg_line = 0, from_line = 1, copy_fuzzer_line = 3, copy_build_line = 4\<rparr>"
  using scan_after_prepending [of "get_project_cache_image_name ''libxml2'' ''address''" fixture_gcr]
    scan_lines_fixture_gcr
  by (simp add: shift_marks_def shifted_def get_project_cache_image_name_def)

section \<open>Properties of the rewriter and of the selection\<close>

subsection \<open>Paths\<close>

lemma path_join2_relative:
  "\<not> startswith b ''/'' \<Longrightarrow>
   path_join2 p b = (if p = [] \<or> endswith p ''/'' then p else p @ ''/'') @ b"
  by (simp add: path_join2_def)

lemma not_cached_eq_original: "''Dockerfile_'' @ s @ ''_cached'' \<noteq> ''Dockerfile_original''"
proof
  assume "''Dockerfile_'' @ s @ ''_cached'' = ''Dockerfile_original''"
  then have "last (''Dockerfile_'' @ s @ ''_cached'') = last ''Dockerfile_original''"
    by (rule arg_cong)
  then show False by simp
qed

lemma cached_neq_original [simp]:
  "cached_dockerfile D g s \<noteq> original_dockerfile D g"
  "original_dockerfile D g \<noteq> cached_dockerfile D g s"
  using not_cached_eq_original [of s]
  by (auto simp: cached_dockerfile_def original_dockerfile_def os_path_join_def
      path_join2_relative startswith_def)

lemma cached_neq_dockerfile [simp]:
  "cached_dockerfile D g s \<noteq> dockerfile D g"
  "dockerfile D g \<noteq> cached_dockerfile D g s"
  by (auto simp: cached_dockerfile_def dockerfile_def os_path_join_def
      path_join2_relative startswith_def)

lemma original_neq_dockerfile [simp]:
  "original_dockerfile D g \<noteq> dockerfile D g"
  "dockerfile D g \<noteq> original_dockerfile D g"
  by (auto simp: original_dockerfile_def dockerfile_def os_path_join_def
      path_join2_relative startswith_def)

subsection \<open>The rewrite is done once\<close>




lemma new_content_fixture:
  "new_content (get_project_cache_image_name ''libxml2'' ''address'') fixture = expected_fixture"
  using new_content_fixture_any_project [of "''libxml2''"]
  by (simp add: expected_fixture_def)

lemma concrete_paths:
  "dockerfile ''/oss-fuzz'' ''libxml2-1f'' = ''/oss-fuzz/projects/libxml2-1f/Dockerfile''"
  "original_dockerfile ''/oss-fuzz'' ''libxml2-1f''
     = ''/oss-fuzz/projects/libxml2-1f/Dockerfile_original''"
  "cached_dockerfile ''/oss-fuzz'' ''libxml2-1f'' ''address''
     = ''/oss-fuzz/projects/libxml2-1f/Dockerfile_address_cached''"
  by (simp_all add: dockerfile_def original_dockerfile_def cached_dockerfile_def
      generated_project_folder_def os_path_join_def path_join2_def startswith_def endswith_def)

lemma rewrite_staged_world:
  "rewrite_project_to_cached_project ''/oss-fuzz'' ''libxml2'' ''libxml2-1f'' ''address''
     (staged_world fixture) = Inr rewritten_world"
  by (simp add: rewrite_project_to_cached_project_def concrete_paths staged_world_def
      rewritten_world_def os_path_isfile_def shutil_copy_def new_content_fixture)


subsection \<open>The minimal fixture\<close>

lemma rewrite_succeeds:
  assumes "files w (cached_dockerfile D g s) = None"
    and "(case files w (original_dockerfile D g) of
            Some c' \<Rightarrow> Some c' | None \<Rightarrow> files w (dockerfile D g)) = Some c"
  shows "rewrite_project_to_cached_project D pn g s w =
           Inr (w\<lparr>files := (files w)
                  (original_dockerfile D g \<mapsto> c,
                   cached_dockerfile D g s \<mapsto>
                     new_content (get_project_cache_image_name pn s) c)\<rparr>)"
  using assms
  by (auto simp: rewrite_project_to_cached_project_def os_path_isfile_def shutil_copy_def
      fun_upd_idem split: option.splits)

text \<open>
  C1, as stated, fails: in the output for the minimal fixture the \<open>FROM\<close> line is
  \<open>FROM base-builder\<close>, as in the input; it does not refer to \<open>$CACHE_IMAGE\<close>.
\<close>

theorem fixture_from_line_not_rewritten:
  "rewrite_project_to_cached_project ''/oss-fuzz'' ''libxml2'' ''libxml2-1f'' ''address''
     (staged_world fixture) = Inr rewritten_world \<and>
   files rewritten_world ''/oss-fuzz/projects/libxml2-1f/Dockerfile_address_cached''
     = Some expected_fixture \<and>
   split_nl fixture = [''FROM base-builder'', ''RUN a'', ''COPY build.sh .'', ''COPY fuzzer.cc .''] \<and>
   split_nl expected_fixture =
     [''ARG CACHE_IMAGE=us-central1-docker.pkg.dev/oss-fuzz/oss-fuzz-gen/libxml2-ofg-cached-address'',
      ''FROM base-builder'', ''# RUN a'', ''COPY build.sh .'', ''COPY fuzzer.cc .'', []]"
  using rewrite_staged_world
  by (simp add: rewritten_world_def expected_fixture_def fixture_def)

text \<open>
  C1, amended. For a staged project that has no cached Dockerfile for \<open>address\<close> yet and
  whose build definition (the backup \<open>Dockerfile_original\<close> if there is one, else
  \<open>Dockerfile\<close>) is the minimal fixture, the rewrite writes a cached Dockerfile made of
  the new \<open>ARG\<close> line, the \<open>FROM\<close> line, \<open>RUN a\<close> behind \<open># \<close>, and both
  \<open>COPY\<close> lines as they are. The \<open>FROM\<close> line is kept as it is, \<open>FROM base-builder\<close>:
  the substitution rewrites only a \<open>FROM\<close> that names
  \<open>gcr.io/oss-fuzz-base/base-builder\<close>, and with that base image in the fixture the line
  becomes \<open>FROM $CACHE_IMAGE\<close>. The project name is assumed to contain neither a line feed
  nor the letter \<open>F\<close>.
\<close>

theorem rewrite_minimal_fixture:
  assumes "CHR ''\<newline>'' \<notin> set project" and "CHR ''F'' \<notin> set project"
    and "files w (cached_dockerfile D g ''address'') = None"
  shows
    "((case files w (original_dockerfile D g) of
         Some c' \<Rightarrow> Some c' | None \<Rightarrow> files w (dockerfile D g)) = Some fixture \<longrightarrow>
      (\<exists>w1. rewrite_project_to_cached_project D project g ''address'' w = Inr w1 \<and>
         files w1 (cached_dockerfile D g ''address'') =
           Some (''ARG CACHE_IMAGE=us-central1-docker.pkg.dev/oss-fuzz/oss-fuzz-gen/'' @ project
                   @ ''-ofg-cached-address\<newline>FROM base-builder\<newline># RUN a\<newline>COPY build.sh .\<newline>COPY fuzzer.cc .\<newline>''))) \<and>
     ((case files w (original_dockerfile D g) of
         Some c' \<Rightarrow> Some c' | None \<Rightarrow> files w (dockerfile D g)) = Some fixture_gcr \<longrightarrow>
      (\<exists>w1. rewrite_project_to_cached_project D project g ''address'' w = Inr w1 \<and>
         files w1 (cached_dockerfile D g ''address'') =
           Some (''ARG CACHE_IMAGE=us-central1-docker.pkg.dev/oss-fuzz/oss-fuzz-gen/'' @ project
                   @ ''-ofg-cached-address\<newline>FROM $CACHE_IMAGE\<newline># RUN a\<newline>COPY build.sh .\<newline>COPY fuzzer.cc .\<newline>'')))"
proof (intro conjI impI)
  assume "(case files w (original_dockerfile D g) of
         Some c' \<Rightarrow> Some c' | None \<Rightarrow> files w (dockerfile D g)) = Some fixture"
  from rewrite_succeeds [OF assms(3) this, of project]
  show "\<exists>w1. rewrite_project_to_cached_project D project g ''address'' w = Inr w1 \<and>
         files w1 (cached_dockerfile D g ''address'') =
           Some (''ARG CACHE_IMAGE=us-central1-docker.pkg.dev/oss-fuzz/oss-fuzz-gen/'' @ project
                   @ ''-ofg-cached-address\<newline>FROM base-builder\<newline># RUN a\<newline>COPY build.sh .\<newline>COPY fuzzer.cc .\<newline>'')"
    by (simp add: new_content_fixture_any_project [OF assms(1,2)])
next
  assume "(case files w (original_dockerfile D g) of
         Some c' \<Rightarrow> Some c' | None \<Rightarrow> files w (dockerfile D g)) = Some fixture_gcr"
  from rewrite_succeeds [OF assms(3) this, of project]
  show "\<exists>w1. rewrite_project_to_cached_project D project g ''address'' w = Inr w1 \<and>
         files w1 (cached_dockerfile D g ''address'') =
           Some (''ARG CACHE_IMAGE=us-central1-docker.pkg.dev/oss-fuzz/oss-fuzz-gen/'' @ project
                   @ ''-ofg-cached-address\<newline>FROM $CACHE_IMAGE\<newline># RUN a\<newline>COPY build.sh .\<newline>COPY fuzzer.cc .\<newline>'')"
    by (simp add: new_content_fixture_gcr_any_project [OF assms(1,2)])
qed

theorem rewrite_minimal_fixture_witness:
  "(\<exists>w1. rewrite_project_to_cached_project ''/oss-fuzz'' ''libxml2'' ''libxml2-1f'' ''address''
           (staged_world fixture) = Inr w1 \<and>
         files w1 ''/oss-fuzz/projects/libxml2-1f/Dockerfile_address_cached'' =
           Some ''ARG CACHE_IMAGE=us-central1-docker.pkg.dev/oss-fuzz/oss-fuzz-gen/libxml2-ofg-cached-address\<newline>FROM base-builder\<newline># RUN a\<newline>COPY build.sh .\<newline>COPY fuzzer.cc .\<newline>'') \<and>
   (\<exists>w1. rewrite_project_to_cached_project ''/oss-fuzz'' ''libxml2'' ''libxml2-1f'' ''address''
           (staged_world fixture_gcr) = Inr w1 \<and>
         files w1 ''/oss-fuzz/projects/libxml2-1f/Dockerfile_address_cached'' =
           Some ''ARG CACHE_IMAGE=us-central1-docker.pkg.dev/oss-fuzz/oss-fuzz-gen/libxml2-ofg-cached-address\<newline>FROM $CACHE_IMAGE\<newline># RUN a\<newline>COPY build.sh .\<newline>COPY fuzzer.cc .\<newline>'')"
  using rewrite_minimal_fixture [where project = "''libxml2''" and D = "''/oss-fuzz''"
      and g = "''libxml2-1f''" and w = "staged_world fixture"]
    rewrite_minimal_fixture [where project = "''libxml2''" and D = "''/oss-fuzz''"
      and g = "''libxml2-1f''" and w = "staged_world fixture_gcr"]
  by (simp add: concrete_paths staged_world_def)

subsection \<open>Choosing the Dockerfile to build from\<close>

text \<open>
  C4, as stated, fails: \<open>prepare_build\<close> does not call the rewriter. When the image is
  cached and the staged project has no cached Dockerfile yet, the copy raises
  \<open>FileNotFoundError\<close>.
\<close>

theorem prepare_build_does_not_rewrite:
  "(\<exists>w1. is_image_cached ext_ok ''libxml2'' ''address'' (staged_world fixture) = Inr (True, w1)) \<and>
   files (staged_world fixture) (cached_dockerfile ''/oss-fuzz'' ''libxml2-1f'' ''address'') = None \<and>
   prepare_build ext_ok True ''/oss-fuzz'' ''libxml2'' ''address'' ''libxml2-1f'' (staged_world fixture)
     = Inl (FileNotFoundError ''/oss-fuzz/projects/libxml2-1f/Dockerfile_address_cached'')"
  by (simp add: prepare_build_def is_image_cached_def sp_run_def ext_ok_def concrete_paths
      staged_world_def shutil_copy_def logger_info_def)

lemma prepare_build_check_raises:
  "is_image_cached ext project_name sanitizer w = Inl err \<Longrightarrow>
   prepare_build ext True D project_name sanitizer g w = Inl err"
  by (simp add: prepare_build_def)

text \<open>
  C4, amended. With caching enabled, and \<open>w1\<close> the world after the check
  \<open>is_image_cached\<close> has returned: when the check is true and the cached Dockerfile
  exists, \<open>Dockerfile\<close> gets its content and nothing else changes; when it does not exist
  the call raises \<open>FileNotFoundError\<close> (the rewriter is never called from here). When the
  check is false, \<open>Dockerfile\<close> gets the content of \<open>Dockerfile_original\<close>, and the call
  raises when that file does not exist. With caching disabled nothing is done.
\<close>

theorem prepare_build_selects:
  assumes "is_image_cached ext project_name sanitizer w = Inr (cached, w1)"
  shows
    "(cached \<and> files w1 (cached_dockerfile D g sanitizer) = Some c \<longrightarrow>
        (\<exists>w2. prepare_build ext True D project_name sanitizer g w = Inr w2 \<and>
              files w2 = (files w1)(dockerfile D g \<mapsto> c) \<and>
              files w2 (dockerfile D g) = files w2 (cached_dockerfile D g sanitizer))) \<and>
     (cached \<and> files w1 (cached_dockerfile D g sanitizer) = None \<longrightarrow>
        prepare_build ext True D project_name sanitizer g w
          = Inl (FileNotFoundError (cached_dockerfile D g sanitizer))) \<and>
     (\<not> cached \<and> files w1 (original_dockerfile D g) = Some c \<longrightarrow>
        (\<exists>w2. prepare_build ext True D project_name sanitizer g w = Inr w2 \<and>
              files w2 = (files w1)(dockerfile D g \<mapsto> c) \<and>
              files w2 (dockerfile D g) = files w2 (original_dockerfile D g))) \<and>
     (\<not> cached \<and> files w1 (original_dockerfile D g) = None \<longrightarrow>
        prepare_build ext True D project_name sanitizer g w
          = Inl (FileNotFoundError (original_dockerfile D g))) \<and>
     prepare_build ext False D project_name sanitizer g w = Inr w"
  using assms
  by (cases cached)
     (simp_all add: prepare_build_def shutil_copy_def logger_info_def)

theorem prepare_build_selects_witness:
  "is_image_cached ext_ok ''libxml2'' ''address'' rewritten_world =
     Inr (True, rewritten_world\<lparr>events := [SpRun \<lparr>argv = [''docker'', ''manifest'', ''inspect'',
        ''us-central1-docker.pkg.dev/oss-fuzz/oss-fuzz-gen/libxml2-ofg-cached-address''],
        cwd = None, env = []\<rparr> True]\<rparr>) \<and>
   (\<exists>w2. prepare_build ext_ok True ''/oss-fuzz'' ''libxml2'' ''address'' ''libxml2-1f'' rewritten_world
           = Inr w2 \<and>
         files w2 ''/oss-fuzz/projects/libxml2-1f/Dockerfile'' = Some expected_fixture) \<and>
   is_image_cached ext_fail ''libxml2'' ''address'' rewritten_world =
     Inr (False, rewritten_world\<lparr>events := [SpRun \<lparr>argv = [''docker'', ''manifest'', ''inspect'',
        ''us-central1-docker.pkg.dev/oss-fuzz/oss-fuzz-gen/libxml2-ofg-cached-address''],
        cwd = None, env = []\<rparr> False]\<rparr>) \<and>
   (\<exists>w2. prepare_build ext_fail True ''/oss-fuzz'' ''libxml2'' ''address'' ''libxml2-1f'' rewritten_world
           = Inr w2 \<and>
         files w2 ''/oss-fuzz/projects/libxml2-1f/Dockerfile'' = Some fixture)"
proof -
  have ok: "is_image_cached ext_ok ''libxml2'' ''address'' rewritten_world =
     Inr (True, rewritten_world\<lparr>events := [SpRun \<lparr>argv = [''docker'', ''manifest'', ''inspect'',
        ''us-central1-docker.pkg.dev/oss-fuzz/oss-fuzz-gen/libxml2-ofg-cached-address''],
        cwd = None, env = []\<rparr> True]\<rparr>)"
    by (simp add: is_image_cached_def sp_run_def ext_ok_def rewritten_world_def
        get_project_cache_image_name_def)
  have fail: "is_image_cached ext_fail ''libxml2'' ''address'' rewritten_world =
     Inr (False, rewritten_world\<lparr>events := [SpRun \<lparr>argv = [''docker'', ''manifest'', ''inspect'',
        ''us-central1-docker.pkg.dev/oss-fuzz/oss-fuzz-gen/libxml2-ofg-cached-address''],
        cwd = None, env = []\<rparr> False]\<rparr>)"
    by (simp add: is_image_cached_def sp_run_def ext_fail_def rewritten_world_def
        get_project_cache_image_name_def)
  show ?thesis
    using prepare_build_selects [OF ok, where D = "''/oss-fuzz''" and g = "''libxml2-1f''"
        and c = expected_fixture]
      prepare_build_selects [OF fail, where D = "''/oss-fuzz''" and g = "''libxml2-1f''"
        and c = fixture]
      ok fail
    by (auto simp: concrete_paths rewritten_world_def)
qed


section \<open>Properties of the cache builder\<close>

subsection \<open>Events\<close>



lemma events_logger_info [simp]: "events (logger_info msg w) = events w @ [LogInfo msg]"
  by (simp add: logger_info_def)


lemma not_aborting [simp]:
  "\<not> aborting \<lparr>argv = ''docker'' # ''manifest'' # rest, cwd = d, env = e\<rparr>"
  "\<not> aborting (pull_cmd p s)"
  "\<not> aborting (container_rm_cmd p)"
  "aborting (build_fuzzers_cmd D p s)"
  "aborting (commit_cmd p s)"
  by (simp_all add: aborting_def pull_cmd_def container_rm_cmd_def build_fuzzers_cmd_def
      commit_cmd_def)










subsection \<open>When no command raises, the functions return\<close>







text \<open>
  When it does raise, nothing catches the exception: with no \<open>docker\<close> executable the
  first existence check of the first project raises \<open>FileNotFoundError\<close>, which leaves
  \<open>is_image_cached\<close>, \<open>_prepare_image_cache\<close> and \<open>prepare_cached_images\<close>; the second
  project is never started.
\<close>

lemma missing_executable_ends_all:
  "prepare_cached_images ext_no_docker this_order ''/oss-fuzz'' two_targets cache_world
     = Inl (FileNotFoundError ''docker'')"
  by (simp add: prepare_cached_images_def this_order_def two_targets_def
      prepare_image_cache_def has_cache_build_script_def os_path_join_def
      path_join2_def startswith_def endswith_def os_path_isfile_def cache_world_def
      is_image_cached_def sp_run_def ext_no_docker_def logger_info_def)

subsection \<open>A failed build ends the caching of the project\<close>








end
